theory Spec2Isabelle
  imports Main "HOL-Library.Word" "HOL-Library.Monad_Syntax" "HOL-Library.Sublist"
begin

unbundle bit_operations_syntax

section \<open>Data model of the graph builder\<close>

text \<open>
  The records follow \<^verbatim>\<open>src/mjolnir/graphbuilder.cc\<close>. File-backed sequences
  (\<^verbatim>\<open>sequence<T>\<close>) are lists; a position or a size (\<^verbatim>\<open>size_t\<close>) is a natural
  number; \<^verbatim>\<open>uint32_t\<close> members are 32-bit words and bit-fields are words of their
  width, so that every assignment truncates as the C++ does.
\<close>

type_synonym u32 = "32 word"
type_synonym u64 = "64 word"

text \<open>
  Modelled from the spec: the classes \<^verbatim>\<open>OSMNode\<close>, \<^verbatim>\<open>OSMWay\<close> and
  \<^verbatim>\<open>OSMWayNode\<close>, whose headers are not part of the sources. The records have the
  members that the builder reads or writes: for a node its original id and the flags
  (intersection, traffic signal, forward and backward signal, link edge, non-link edge);
  for a way its id, road class, driveability forward and backward, link flag and count
  of way-nodes; for a way-node the embedded node and the index of its way.
\<close>

record OSMNode =
  osmid :: u64
  intersection :: bool
  node_traffic_signal :: bool
  node_forward_signal :: bool
  node_backward_signal :: bool
  link_edge :: bool
  non_link_edge :: bool

record OSMWay =
  way_id :: u64
  road_class :: u32
  auto_forward :: bool
  auto_backward :: bool
  link :: bool
  node_count :: nat

record OSMWayNode =
  wn_node :: OSMNode
  way_index :: nat

text \<open>
  Modelled from the spec: the class \<^verbatim>\<open>GraphId\<close>, which is not part of the sources:
  the tile (its number and hierarchy level) and the index within the tile,
  \<^verbatim>\<open>fields.id\<close>.
\<close>

record GraphId =
  tileid :: nat
  level :: nat
  id :: nat

text \<open>
  The members \<^verbatim>\<open>sourcenode_\<close>, \<^verbatim>\<open>wayindex_\<close>, \<^verbatim>\<open>llindex_\<close> and \<^verbatim>\<open>targetnode_\<close>
  of \<^verbatim>\<open>Edge\<close> are written without the trailing underscore, and the bit
  \<^verbatim>\<open>attributes.link\<close> is \<open>attr_link\<close>, to keep it apart from the way's \<open>link\<close>.
\<close>

record EdgeAttributes =
  llcount :: "16 word"
  importance :: "3 word"
  driveableforward :: bool
  driveablereverse :: bool
  traffic_signal :: bool
  forward_signal :: bool
  backward_signal :: bool
  attr_link :: bool

record Edge =
  sourcenode :: u32
  wayindex :: u32
  llindex :: u32
  attributes :: EdgeAttributes
  targetnode :: u32

record Node =
  node :: OSMNode
  start_of :: u32
  end_of :: u32
  graph_id :: GraphId

text \<open>
  The sentinel of \<^verbatim>\<open>start_of\<close> and \<^verbatim>\<open>end_of\<close> is \<^verbatim>\<open>static_cast<uint32_t>(-1)\<close>;
  \<^verbatim>\<open>start_of != - 1\<close> compares after converting \<^verbatim>\<open>-1\<close> to unsigned.
\<close>

definition is_start :: "Node \<Rightarrow> bool" where
  "is_start n = (start_of n \<noteq> - 1)"

definition is_end :: "Node \<Rightarrow> bool" where
  "is_end n = (end_of n \<noteq> - 1)"

text \<open>
  \<^verbatim>\<open>node_bundle\<close> extends \<^verbatim>\<open>Node\<close>; its members \<^verbatim>\<open>node_count\<close> and
  \<^verbatim>\<open>edges\<close> are \<open>bundle_count\<close> and \<open>bundle_edges\<close> here.
\<close>

record node_bundle = Node +
  bundle_count :: nat
  bundle_edges :: "(Edge \<times> nat) list"

text \<open>
  Modelled from the spec: the record store \<^verbatim>\<open>sequence<T>\<close>, which is not part of
  the sources, with its random read by index (\<^verbatim>\<open>*seq[i]\<close>). A position at or past
  the end holds no record: the read is a failure of the model, \<open>None\<close>. A write by
  index is a list update, and \<^verbatim>\<open>push_back\<close> appends.
\<close>

definition seq_at :: "'a list \<Rightarrow> nat \<Rightarrow> 'a option" where
  "seq_at xs i = (if i < length xs then Some (xs ! i) else None)"

section \<open>Collecting the edges of a node\<close>

text \<open>
  The three lines \<^verbatim>\<open>auto edge_itr = edges[i]; auto edge = *edge_itr;
  bundle.edges.emplace_back(edge, edge_itr.position());\<close>
\<close>

definition emplace_edge :: "Edge list \<Rightarrow> u32 \<Rightarrow> (Edge \<times> nat) list \<Rightarrow> (Edge \<times> nat) list option" where
  "emplace_edge es i acc = do { edge \<leftarrow> seq_at es (unat i); Some (acc @ [(edge, unat i)]) }"

text \<open>
  The loop of \<^verbatim>\<open>collect_node_edges\<close>, entered after \<^verbatim>\<open>++itr\<close>: it runs while
  \<^verbatim>\<open>itr != nodes.end()\<close> and the record at \<^verbatim>\<open>itr\<close> has the bundle's identifier.
  The iterator starts inside the sequence and moves one record at a time, so it differs
  from the end exactly while it is below it. The result is the final iterator and the
  edge list.
\<close>

function collect_loop ::
  "Node list \<Rightarrow> Edge list \<Rightarrow> u64 \<Rightarrow> nat \<Rightarrow> (Edge \<times> nat) list \<Rightarrow> (nat \<times> (Edge \<times> nat) list) option" where
  "collect_loop nodes es oid itr acc =
     (if itr < length nodes \<and> osmid (node (nodes ! itr)) = oid then
        do {
          acc1 \<leftarrow> (if is_start (nodes ! itr) then emplace_edge es (start_of (nodes ! itr)) acc else Some acc);
          acc2 \<leftarrow> (if is_end (nodes ! itr) then emplace_edge es (end_of (nodes ! itr)) acc1 else Some acc1);
          collect_loop nodes es oid (itr + 1) acc2
        }
      else Some (itr, acc))"
  by pat_completeness auto
termination
  by (relation "measure (\<lambda>(nodes, es, oid, itr, acc). length nodes - itr)") auto

declare collect_loop.simps [simp del]

text \<open>
  \<^verbatim>\<open>collect_node_edges\<close>: the bundle is built from the record at \<^verbatim>\<open>node_itr\<close>, the
  loop starts at the next record, and \<^verbatim>\<open>node_count = itr - node_itr\<close>.
\<close>

definition collect_node_edges :: "nat \<Rightarrow> Node list \<Rightarrow> Edge list \<Rightarrow> node_bundle option" where
  "collect_node_edges node_itr nodes es =
     do {
       first \<leftarrow> seq_at nodes node_itr;
       (itr, el) \<leftarrow> collect_loop nodes es (osmid (node first)) (node_itr + 1) [];
       Some (Node.extend first (node_bundle.fields (itr - node_itr) el))
     }"


section \<open>Best class of the non-link edges of a node\<close>

definition kAbsurdRoadClass :: u32 where
  "kAbsurdRoadClass = 777777"

text \<open>
  The body of the loop of \<^verbatim>\<open>GetBestNonLinkClass\<close>; the 3-bit importance is widened
  to the 32 bits of \<^verbatim>\<open>bestrc\<close> for the comparison and the assignment.
\<close>

definition best_step :: "u32 \<Rightarrow> Edge \<times> nat \<Rightarrow> u32" where
  "best_step bestrc edge =
     (if \<not> attr_link (attributes (fst edge)) then
        (if ucast (importance (attributes (fst edge))) < bestrc
         then ucast (importance (attributes (fst edge))) else bestrc)
      else bestrc)"

definition GetBestNonLinkClass :: "(Edge \<times> nat) list \<Rightarrow> u32" where
  "GetBestNonLinkClass el = foldl best_step kAbsurdRoadClass el"

section \<open>The edge constructor\<close>

text \<open>
  \<^verbatim>\<open>Edge::make_edge\<close>. Its parameters are \<^verbatim>\<open>uint32_t\<close>: the sizes and positions
  passed by the caller are truncated to 32 bits. The members that the constructor does
  not set are zero.
\<close>

definition make_edge :: "nat \<Rightarrow> nat \<Rightarrow> nat \<Rightarrow> OSMWay \<Rightarrow> Edge" where
  "make_edge src widx llidx way =
     \<lparr>sourcenode = of_nat src, wayindex = of_nat widx, llindex = of_nat llidx,
      attributes = \<lparr>llcount = 1, importance = ucast (road_class way),
        driveableforward = auto_forward way, driveablereverse = auto_backward way,
        traffic_signal = False, forward_signal = False, backward_signal = False,
        attr_link = link way\<rparr>,
      targetnode = 0\<rparr>"

text \<open>
  The node records that \<^verbatim>\<open>ConstructEdges\<close> pushes for the first way-node of a way
  and for a way-node that ends an edge. The way's link attribute is OR-ed into the
  node's \<^verbatim>\<open>link_edge\<close> first, and the graph id is computed from the node so changed.
  The member that is not the sentinel is \<^verbatim>\<open>static_cast<uint32_t>(ways.size())\<close>; the
  first argument is the size of the way sequence.
\<close>

definition start_node :: "nat \<Rightarrow> OSMWay \<Rightarrow> (OSMNode \<Rightarrow> GraphId) \<Rightarrow> OSMNode \<Rightarrow> Node" where
  "start_node nways way graph_id_predicate n =
     (let n1 = n\<lparr>link_edge := link_edge n \<or> link way\<rparr>
      in \<lparr>node = n1, start_of = of_nat nways, end_of = - 1, graph_id = graph_id_predicate n1\<rparr>)"

definition end_node :: "nat \<Rightarrow> OSMWay \<Rightarrow> (OSMNode \<Rightarrow> GraphId) \<Rightarrow> OSMNode \<Rightarrow> Node" where
  "end_node nways way graph_id_predicate n =
     (let n1 = n\<lparr>link_edge := link_edge n \<or> link way\<rparr>
      in \<lparr>node = n1, start_of = - 1, end_of = of_nat nways, graph_id = graph_id_predicate n1\<rparr>)"

text \<open>\<^verbatim>\<open>edge.attributes.llcount++\<close>, on the 16 bits of the field.\<close>

definition count_shape_point :: "Edge \<Rightarrow> Edge" where
  "count_shape_point edge = edge\<lparr>attributes := (attributes edge)\<lparr>llcount := llcount (attributes edge) + 1\<rparr>\<rparr>"

text \<open>The branch for a way-node with a traffic signal that is not an intersection.\<close>

definition set_signal :: "OSMNode \<Rightarrow> Edge \<Rightarrow> Edge" where
  "set_signal n edge =
     edge\<lparr>attributes := (attributes edge)\<lparr>traffic_signal := True,
        forward_signal := node_forward_signal n, backward_signal := node_backward_signal n\<rparr>\<rparr>"

text \<open>
  \<^verbatim>\<open>element = --nodes.end(); node = *element; node.start_of = ways.size();
  element = node;\<close>
\<close>

definition patch_last_start :: "nat \<Rightarrow> Node list \<Rightarrow> Node list" where
  "patch_last_start nways nodes =
     nodes[length nodes - 1 := (nodes ! (length nodes - 1))\<lparr>start_of := of_nat nways\<rparr>]"

text \<open>
  The inner loop \<^verbatim>\<open>while(current_way_node_index < way_nodes.size())\<close>. Its state is
  the two sequences, the edge under construction and \<^verbatim>\<open>current_way_node_index\<close>;
  \<^verbatim>\<open>*way_nodes[++current_way_node_index]\<close> reads the next way-node, which fails at the
  end of the sequence. The loop is left by \<^verbatim>\<open>break\<close>, after one more increment, when
  an intersection is the last way-node of the way.
\<close>

function way_loop ::
  "nat \<Rightarrow> OSMWayNode list \<Rightarrow> OSMWay \<Rightarrow> nat \<Rightarrow> (OSMNode \<Rightarrow> GraphId)
     \<Rightarrow> Node list \<Rightarrow> Edge list \<Rightarrow> Edge \<Rightarrow> nat \<Rightarrow> (Node list \<times> Edge list \<times> nat) option" where
  "way_loop nways way_nodes way last_way_node_index pred nodes es edge cur =
     (if cur < length way_nodes then
        do {
          way_node \<leftarrow> seq_at way_nodes (cur + 1);
          if intersection (wn_node way_node) then
            (if cur + 1 \<noteq> last_way_node_index then
               way_loop nways way_nodes way last_way_node_index pred
                 (patch_last_start nways (nodes @ [end_node nways way pred (wn_node way_node)]))
                 (es @ [(count_shape_point edge)\<lparr>targetnode := of_nat (length nodes)\<rparr>])
                 (make_edge (length nodes + 1) (way_index way_node) (cur + 1) way)
                 (cur + 1)
             else
               Some (nodes @ [end_node nways way pred (wn_node way_node)],
                     es @ [(count_shape_point edge)\<lparr>targetnode := of_nat (length nodes)\<rparr>],
                     cur + 1 + 1))
          else
            way_loop nways way_nodes way last_way_node_index pred nodes es
              (if node_traffic_signal (wn_node way_node)
               then set_signal (wn_node way_node) (count_shape_point edge)
               else count_shape_point edge)
              (cur + 1)
        }
      else Some (nodes, es, cur))"
  by pat_completeness auto
termination
  by (relation "measure (\<lambda>(nways, way_nodes, way, l, pred, nodes, es, edge, cur). length way_nodes - cur)")
     (auto simp: seq_at_def split: if_splits)

declare way_loop.simps [simp del]

text \<open>
  The outer loop, one round for each way. \<^verbatim>\<open>last_way_node_index\<close> is computed in
  \<^verbatim>\<open>size_t\<close>, modulo \<open>2 ^ 64\<close>.
\<close>

function ConstructEdges_loop ::
  "OSMWay list \<Rightarrow> OSMWayNode list \<Rightarrow> (OSMNode \<Rightarrow> GraphId)
     \<Rightarrow> Node list \<Rightarrow> Edge list \<Rightarrow> nat \<Rightarrow> (Node list \<times> Edge list) option" where
  "ConstructEdges_loop ways way_nodes pred nodes es cur =
     (if cur < length way_nodes then
        do {
          first_way_node \<leftarrow> seq_at way_nodes cur;
          way \<leftarrow> seq_at ways (way_index first_way_node);
          (nodes', es', cur') \<leftarrow>
             way_loop (length ways) way_nodes way
               ((cur + node_count way + (2 ^ 64 - 1)) mod 2 ^ 64) pred
               (nodes @ [start_node (length ways) way pred (wn_node first_way_node)])
               es
               (make_edge (length nodes) (way_index first_way_node) cur way)
               cur;
          ConstructEdges_loop ways way_nodes pred nodes' es' cur'
        }
      else Some (nodes, es))"
  by pat_completeness auto
text \<open>
  The outer loop terminates because the inner loop, when it returns, has moved
  \<^verbatim>\<open>current_way_node_index\<close> forward.
\<close>

termination
proof (relation "measure (\<lambda>(ways, way_nodes, pred, nodes, es, cur). length way_nodes - cur)", goal_cases)
  case 1
  show ?case by simp
next
  case (2 ways way_nodes pred nodes es cur first_way_node way x xa y xb z)
  have advances: "way_loop nways way_nodes way l pred nodes es edge cur = Some (nodes', es', cur')
       \<Longrightarrow> cur < length way_nodes \<Longrightarrow> cur < cur' \<and> cur' \<le> length way_nodes"
    for nways way_nodes way l pred nodes es edge cur nodes' es' cur'
    proof (induction nways way_nodes way l pred nodes es edge cur rule: way_loop.induct)
      case (1 nways way_nodes way l pred nodes es edge cur)
      from "1.prems" obtain way_node where wn: "seq_at way_nodes (cur + 1) = Some way_node"
        by (subst (asm) way_loop.simps) (auto split: if_splits bind_splits)
      then have lt: "cur + 1 < length way_nodes" by (simp add: seq_at_def split: if_splits)
      show ?case
      proof (cases "intersection (wn_node way_node)")
        case True
        show ?thesis
        proof (cases "cur + 1 \<noteq> l")
          case ne: True
          have "way_loop nways way_nodes way l pred
                     (patch_last_start nways (nodes @ [end_node nways way pred (wn_node way_node)]))
                     (es @ [(count_shape_point edge)\<lparr>targetnode := of_nat (length nodes)\<rparr>])
                     (make_edge (length nodes + 1) (way_index way_node) (cur + 1) way)
                     (cur + 1) = Some (nodes', es', cur')"
            using "1.prems" wn True ne by (subst (asm) way_loop.simps) simp
          from "1.IH"(1) [OF "1.prems"(2) wn True ne this lt] show ?thesis by simp
        next
          case False
          then show ?thesis using "1.prems" wn True lt
            by (subst (asm) way_loop.simps) auto
        qed
      next
        case False
        have "way_loop nways way_nodes way l pred nodes es
                  (if node_traffic_signal (wn_node way_node)
                   then set_signal (wn_node way_node) (count_shape_point edge)
                   else count_shape_point edge)
                  (cur + 1) = Some (nodes', es', cur')"
          using "1.prems" wn False by (subst (asm) way_loop.simps) simp
        from "1.IH"(2) [OF "1.prems"(2) wn False this lt] show ?thesis by simp
      qed
    qed
  from 2 show ?case using advances by fastforce
qed

declare ConstructEdges_loop.simps [simp del]

text \<open>
  \<^verbatim>\<open>ConstructEdges\<close> creates both sequences empty and starts at the first way-node.
  The result is the node sequence and the edge sequence.
\<close>

definition ConstructEdges ::
  "OSMWay list \<Rightarrow> OSMWayNode list \<Rightarrow> (OSMNode \<Rightarrow> GraphId) \<Rightarrow> (Node list \<times> Edge list) option" where
  "ConstructEdges ways way_nodes pred = ConstructEdges_loop ways way_nodes pred [] [] 0"


section \<open>The node sorter and duplicate collapser\<close>

text \<open>
  Modelled from the spec: the order of \<^verbatim>\<open>GraphId\<close> values, whose class is not part
  of the sources. The spec orders them by tile first and by index within the tile second;
  the level and the tile number identify the tile.
\<close>

definition graphid_less :: "GraphId \<Rightarrow> GraphId \<Rightarrow> bool" where
  "graphid_less a b =
     (level a < level b
      \<or> level a = level b \<and> (tileid a < tileid b \<or> tileid a = tileid b \<and> id a < id b))"

text \<open>The comparator that \<^verbatim>\<open>SortGraph\<close> passes to \<^verbatim>\<open>nodes.sort\<close>.\<close>

definition node_less :: "Node \<Rightarrow> Node \<Rightarrow> bool" where
  "node_less a b =
     (if graph_id a = graph_id b then osmid (node a) < osmid (node b)
      else graphid_less (graph_id a) (graph_id b))"

text \<open>
  Modelled from the spec: \<^verbatim>\<open>sequence<T>::sort\<close>, which is not part of the sources.
  The spec has it reorder the sequence in place by the comparator; the model inserts each
  record after the records that are not greater than it.
\<close>

fun sort_insert :: "('a \<Rightarrow> 'a \<Rightarrow> bool) \<Rightarrow> 'a \<Rightarrow> 'a list \<Rightarrow> 'a list" where
  "sort_insert cmp x [] = [x]"
| "sort_insert cmp x (y # ys) = (if cmp x y then x # y # ys else y # sort_insert cmp x ys)"

definition sequence_sort :: "('a \<Rightarrow> 'a \<Rightarrow> bool) \<Rightarrow> 'a list \<Rightarrow> 'a list" where
  "sequence_sort cmp xs = foldl (\<lambda>acc x. sort_insert cmp x acc) [] xs"

text \<open>
  The tile index \<^verbatim>\<open>std::map<GraphId, size_t>\<close> is an association list in key order.
  \<^verbatim>\<open>insert\<close> keeps the entry of a key that is already present.
\<close>

fun tiles_insert :: "GraphId \<times> nat \<Rightarrow> (GraphId \<times> nat) list \<Rightarrow> (GraphId \<times> nat) list" where
  "tiles_insert kv [] = [kv]"
| "tiles_insert kv (x # xs) =
     (if fst kv = fst x then x # xs
      else if graphid_less (fst kv) (fst x) then kv # x # xs
      else x # tiles_insert kv xs)"

text \<open>
  The variables that the callback of \<^verbatim>\<open>nodes.transform\<close> captures by reference: the
  two sequences, \<^verbatim>\<open>run_index\<close>, \<^verbatim>\<open>node_index\<close>, \<^verbatim>\<open>last_node\<close> and \<^verbatim>\<open>tiles\<close>.
\<close>

record sort_state =
  s_nodes :: "Node list"
  s_edges :: "Edge list"
  run_index :: u32
  node_index :: u32
  last_node :: Node
  tiles :: "(GraphId \<times> nat) list"

text \<open>\<^verbatim>\<open>Node last_node{}\<close>: every member is zero.\<close>

definition zero_node :: Node where
  "zero_node =
     \<lparr>node = \<lparr>osmid = 0, intersection = False, node_traffic_signal = False,
        node_forward_signal = False, node_backward_signal = False,
        link_edge = False, non_link_edge = False\<rparr>,
      start_of = 0, end_of = 0, graph_id = \<lparr>tileid = 0, level = 0, id = 0\<rparr>\<rparr>"

definition set_id :: "nat \<Rightarrow> Node \<Rightarrow> Node" where
  "set_id i n = n\<lparr>graph_id := (graph_id n)\<lparr>id := i\<rparr>\<rparr>"

text \<open>
  The flags that a duplicate takes from the previous record and the edge it starts or
  ends.
\<close>

definition carry_flags :: "Node \<Rightarrow> Edge \<Rightarrow> Node \<Rightarrow> Node" where
  "carry_flags prev edge n =
     n\<lparr>node := (node n)\<lparr>
          link_edge := link_edge (node prev) \<or> attr_link (attributes edge),
          non_link_edge := non_link_edge (node prev) \<or> \<not> attr_link (attributes edge)\<rparr>\<rparr>"

text \<open>
  The branch of a duplicate, for \<^verbatim>\<open>node.is_start()\<close>: the edge at \<^verbatim>\<open>start_of\<close> gets
  \<^verbatim>\<open>run_index\<close> as its source and the node takes the flags.
\<close>

definition relink_start :: "sort_state \<Rightarrow> Node \<Rightarrow> (sort_state \<times> Node) option" where
  "relink_start st n =
     (if is_start n then
        do {
          edge \<leftarrow> seq_at (s_edges st) (unat (start_of n));
          Some (st\<lparr>s_edges := (s_edges st)[unat (start_of n) := edge\<lparr>sourcenode := run_index st\<rparr>]\<rparr>,
                carry_flags (last_node st) edge n)
        }
      else Some (st, n))"

definition relink_end :: "sort_state \<Rightarrow> Node \<Rightarrow> (sort_state \<times> Node) option" where
  "relink_end st n =
     (if is_end n then
        do {
          edge \<leftarrow> seq_at (s_edges st) (unat (end_of n));
          Some (st\<lparr>s_edges := (s_edges st)[unat (end_of n) := edge\<lparr>targetnode := run_index st\<rparr>]\<rparr>,
                carry_flags (last_node st) edge n)
        }
      else Some (st, n))"

text \<open>
  The three branches of the callback. The result is the state, the node and
  \<^verbatim>\<open>runback\<close>. \<^verbatim>\<open>(--tiles.end())->first\<close> is the greatest key of the map; on an
  empty map it has no value.
\<close>

definition classify :: "sort_state \<Rightarrow> Node \<Rightarrow> (sort_state \<times> Node \<times> bool) option" where
  "classify st n =
     do {
       new_tile \<leftarrow> (if node_index st = 0 then Some True
                    else if tiles st = [] then None
                    else Some (graph_id n \<noteq> fst (last (tiles st))));
       if new_tile then
         Some (st\<lparr>tiles := tiles_insert (graph_id n, unat (node_index st)) (tiles st)\<rparr>,
               set_id 0 n, node_index st \<noteq> 0)
       else if osmid (node (last_node st)) \<noteq> osmid (node n) then
         Some (st, set_id (id (graph_id (last_node st)) + 1) n, True)
       else
         do {
           (st1, n1) \<leftarrow> relink_start st (set_id (id (graph_id (last_node st))) n);
           (st2, n2) \<leftarrow> relink_end st1 n1;
           Some (st2, n2, False)
         }
     }"

text \<open>
  \<^verbatim>\<open>if(runback)\<close>: the record at \<^verbatim>\<open>run_index\<close> is read, replaced by
  \<^verbatim>\<open>last_node\<close> and written back, and the next run starts at \<^verbatim>\<open>node_index\<close>.
\<close>

definition run_back :: "sort_state \<Rightarrow> bool \<Rightarrow> sort_state option" where
  "run_back st runback =
     (if runback then
        do {
          run_node \<leftarrow> seq_at (s_nodes st) (unat (run_index st));
          Some (st\<lparr>s_nodes := (s_nodes st)[unat (run_index st) := last_node st],
                  run_index := node_index st\<rparr>)
        }
      else Some st)"

text \<open>
  One call of the callback on the record at position \<open>pos\<close>; \<^verbatim>\<open>transform\<close> stores the
  returned node at that position.
\<close>

definition sort_step :: "sort_state \<Rightarrow> nat \<Rightarrow> sort_state option" where
  "sort_step st pos =
     do {
       n \<leftarrow> seq_at (s_nodes st) pos;
       (st1, n1, runback) \<leftarrow> classify st n;
       st2 \<leftarrow> run_back st1 runback;
       Some (st2\<lparr>last_node := n1, node_index := node_index st2 + 1,
                 s_nodes := (s_nodes st2)[pos := n1]\<rparr>)
     }"

fun transform_loop :: "sort_state \<Rightarrow> nat list \<Rightarrow> sort_state option" where
  "transform_loop st [] = Some st"
| "transform_loop st (pos # rest) = do { st1 \<leftarrow> sort_step st pos; transform_loop st1 rest }"

text \<open>
  \<^verbatim>\<open>SortGraph\<close>: the sort, then the forward pass over every position. The result is
  the node sequence, the edge sequence and the tile index.
\<close>

definition SortGraph ::
  "Node list \<Rightarrow> Edge list \<Rightarrow> (Node list \<times> Edge list \<times> (GraphId \<times> nat) list) option" where
  "SortGraph nodes es =
     do {
       st \<leftarrow> transform_loop
               \<lparr>s_nodes = sequence_sort node_less nodes, s_edges = es, run_index = 0,
                node_index = 0, last_node = zero_node, tiles = []\<rparr>
               [0 ..< length nodes];
       Some (s_nodes st, s_edges st, tiles st)
     }"

section \<open>The link reclassifier\<close>

text \<open>
  The variables of \<^verbatim>\<open>ReclassifyLinks\<close> that its loops update: the edge sequence,
  \<^verbatim>\<open>endrc\<close>, the two sets, the list of edge positions to reclassify, the counter, and
  the way identifiers of the unconnected-link issues added to the statistics. An
  \<^verbatim>\<open>unordered_set\<close> is a list without repetitions; \<^verbatim>\<open>*expandset.begin()\<close> is some
  element of the set, here the one that has been in it longest.
\<close>

record reclass_state =
  r_edges :: "Edge list"
  endrc :: "u32 list"
  visitedset :: "nat list"
  expandset :: "nat list"
  linkedgeindexes :: "nat list"
  reclassified :: u32
  issues :: "u64 list"

definition set_insert :: "nat \<Rightarrow> nat list \<Rightarrow> nat list" where
  "set_insert x xs = (if x \<in> set xs then xs else xs @ [x])"

text \<open>
  The lambda \<^verbatim>\<open>expand\<close>. The end node is the target of the edge when the edge starts
  at the given position, and the given position otherwise.
\<close>

definition expand :: "Node list \<Rightarrow> Edge \<Rightarrow> nat \<Rightarrow> reclass_state \<Rightarrow> reclass_state option" where
  "expand nodes edge node_itr st =
     do {
       let end_node_itr = (if unat (sourcenode edge) = node_itr then unat (targetnode edge) else node_itr);
       end_node \<leftarrow> seq_at nodes end_node_itr;
       if non_link_edge (node end_node) then
         do {
           bundle \<leftarrow> collect_node_edges end_node_itr nodes (r_edges st);
           Some (st\<lparr>endrc := endrc st @ [GetBestNonLinkClass (bundle_edges bundle)]\<rparr>)
         }
       else Some (st\<lparr>expandset := set_insert end_node_itr (expandset st)\<rparr>)
     }"

text \<open>
  The body of \<^verbatim>\<open>for (auto idx : linkedgeindexes)\<close>: the importance is assigned only
  when \<^verbatim>\<open>rc\<close> is greater; the assignment stores \<^verbatim>\<open>rc\<close> in the 3-bit field.
\<close>

definition set_importance :: "u32 \<Rightarrow> reclass_state \<Rightarrow> nat \<Rightarrow> reclass_state option" where
  "set_importance rc st idx =
     do {
       edge \<leftarrow> seq_at (r_edges st) idx;
       if rc > ucast (importance (attributes edge)) then
         Some (st\<lparr>r_edges := (r_edges st)[idx := edge\<lparr>attributes := (attributes edge)\<lparr>importance := ucast rc\<rparr>\<rparr>],
                 reclassified := reclassified st + 1\<rparr>)
       else Some st
     }"

fun set_importances :: "u32 \<Rightarrow> reclass_state \<Rightarrow> nat list \<Rightarrow> reclass_state option" where
  "set_importances rc st [] = Some st"
| "set_importances rc st (idx # rest) = do { st1 \<leftarrow> set_importance rc st idx; set_importances rc st1 rest }"

text \<open>
  The block \<^verbatim>\<open>if (expandset.empty()) { ... break; }\<close>: with fewer than two entries in
  \<^verbatim>\<open>endrc\<close> an issue is added for the way of the start edge; otherwise \<^verbatim>\<open>endrc\<close> is
  sorted in place and its second entry is given to the edges of the list.
\<close>

definition frontier_empty :: "OSMWay list \<Rightarrow> Edge \<Rightarrow> reclass_state \<Rightarrow> reclass_state option" where
  "frontier_empty ways startedge st =
     (if length (endrc st) < 2 then
        do {
          way \<leftarrow> seq_at ways (unat (wayindex startedge));
          Some (st\<lparr>issues := issues st @ [way_id way]\<rparr>)
        }
      else
        set_importances (sort (endrc st) ! 1) (st\<lparr>endrc := sort (endrc st)\<rparr>) (linkedgeindexes st))"

text \<open>
  The body of \<^verbatim>\<open>for (const auto& expandededge : expanded.edges)\<close>: the start edge and
  the edges that are not links are skipped.
\<close>

fun expand_edges :: "Node list \<Rightarrow> nat \<Rightarrow> nat \<Rightarrow> (Edge \<times> nat) list \<Rightarrow> reclass_state \<Rightarrow> reclass_state option" where
  "expand_edges nodes expandnode startidx [] st = Some st"
| "expand_edges nodes expandnode startidx (expandededge # rest) st =
     (if snd expandededge = startidx then expand_edges nodes expandnode startidx rest st
      else if \<not> attr_link (attributes (fst expandededge)) then expand_edges nodes expandnode startidx rest st
      else do {
             st1 \<leftarrow> expand nodes (fst expandededge) expandnode st;
             expand_edges nodes expandnode startidx rest st1
           })"

text \<open>
  \<^verbatim>\<open>for (uint32_t n = 0; n < 512; n++)\<close>: the first argument counts the iterations that
  are left.
\<close>

fun expand_loop :: "nat \<Rightarrow> OSMWay list \<Rightarrow> Node list \<Rightarrow> Edge \<times> nat \<Rightarrow> reclass_state \<Rightarrow> reclass_state option" where
  "expand_loop 0 ways nodes startedge st = Some st"
| "expand_loop (Suc k) ways nodes startedge st =
     (if expandset st = [] then frontier_empty ways (fst startedge) st
      else
        do {
          let expandnode = hd (expandset st);
          let st1 = st\<lparr>expandset := tl (expandset st),
                       visitedset := set_insert expandnode (visitedset st)\<rparr>;
          expanded \<leftarrow> collect_node_edges expandnode nodes (r_edges st1);
          st2 \<leftarrow> expand_edges nodes expandnode (snd startedge) (bundle_edges expanded) st1;
          expand_loop k ways nodes startedge st2
        })"

text \<open>
  The body of \<^verbatim>\<open>for (const auto& startedge : bundle.edges)\<close>, for the node at
  \<^verbatim>\<open>node_itr\<close>.
\<close>

fun start_edges :: "OSMWay list \<Rightarrow> Node list \<Rightarrow> nat \<Rightarrow> (Edge \<times> nat) list \<Rightarrow> reclass_state \<Rightarrow> reclass_state option" where
  "start_edges ways nodes node_itr [] st = Some st"
| "start_edges ways nodes node_itr (startedge # rest) st =
     (if \<not> attr_link (attributes (fst startedge)) then start_edges ways nodes node_itr rest st
      else
        do {
          st1 \<leftarrow> expand nodes (fst startedge) node_itr
                  (st\<lparr>visitedset := [], expandset := [], linkedgeindexes := [snd startedge]\<rparr>);
          st2 \<leftarrow> expand_loop 512 ways nodes startedge st1;
          start_edges ways nodes node_itr rest st2
        })"

text \<open>
  The loop \<^verbatim>\<open>while (node_itr != nodes.end())\<close> over the runs of the node sequence.
\<close>

function reclassify_loop :: "OSMWay list \<Rightarrow> Node list \<Rightarrow> nat \<Rightarrow> reclass_state \<Rightarrow> reclass_state option" where
  "reclassify_loop ways nodes node_itr st =
     (if node_itr < length nodes then
        do {
          bundle \<leftarrow> collect_node_edges node_itr nodes (r_edges st);
          st1 \<leftarrow> (if link_edge (node bundle) \<and> non_link_edge (node bundle) then
                    start_edges ways nodes node_itr (bundle_edges bundle)
                      (st\<lparr>endrc := [GetBestNonLinkClass (bundle_edges bundle)]\<rparr>)
                  else Some st);
          reclassify_loop ways nodes (node_itr + bundle_count bundle) st1
        }
      else Some st)"
  by pat_completeness auto

text \<open>
  The loop terminates because a bundle counts at least the record it was built from.
\<close>

termination
proof (relation "measure (\<lambda>(ways, nodes, node_itr, st). length nodes - node_itr)", goal_cases)
  case 1
  show ?case by simp
next
  case (2 ways nodes node_itr st bnd st1)
  have forward: "collect_loop nodes es oid itr acc = Some (itr', el) \<Longrightarrow> itr \<le> itr'"
    for nodes es oid itr acc itr' el
    proof (induction nodes es oid itr acc rule: collect_loop.induct)
      case (1 nodes es oid itr acc)
      show ?case
      proof (cases "itr < length nodes \<and> osmid (node (nodes ! itr)) = oid")
        case True
        from "1.prems" obtain a aa where
          "(if is_start (nodes ! itr) then emplace_edge es (start_of (nodes ! itr)) acc else Some acc) = Some a"
          "(if is_end (nodes ! itr) then emplace_edge es (end_of (nodes ! itr)) a else Some a) = Some aa"
          "collect_loop nodes es oid (itr + 1) aa = Some (itr', el)"
          using True by (subst (asm) collect_loop.simps) (auto split: bind_splits)
        with "1.IH" [OF True] show ?thesis by fastforce
      next
        case False
        with "1.prems" show ?thesis by (subst (asm) collect_loop.simps) auto
      qed
    qed
  have "node_itr < length nodes \<and> 0 < bundle_count bnd"
    using 2(2)
    by (auto simp: collect_node_edges_def seq_at_def Node.extend_def node_bundle.fields_def
        split: bind_splits if_splits dest!: forward)
  then show ?case by auto
qed

declare reclassify_loop.simps [simp del]

text \<open>
  \<^verbatim>\<open>ReclassifyLinks\<close>: the result is the edge sequence, the number of reclassified
  edges and the issues.
\<close>

definition ReclassifyLinks :: "OSMWay list \<Rightarrow> Node list \<Rightarrow> Edge list \<Rightarrow> (Edge list \<times> u32 \<times> u64 list) option" where
  "ReclassifyLinks ways nodes es =
     do {
       st \<leftarrow> reclassify_loop ways nodes 0
               \<lparr>r_edges = es, endrc = [], visitedset = [], expandset = [],
                linkedgeindexes = [], reclassified = 0, issues = []\<rparr>;
       Some (r_edges st, reclassified st, issues st)
     }"

section \<open>The tile builder driver\<close>

text \<open>
  The statistics class \<^verbatim>\<open>DataQuality\<close>, the tile writer and the code that fills one
  tile are collaborators of the driver. They are parameters of the model: \<open>'s\<close> is the
  type of the statistics, \<open>'x\<close> the type of the exceptions, and the record gives a
  fresh \<^verbatim>\<open>DataQuality\<close>, \<^verbatim>\<open>AddIssue\<close> for an unconnected link of a way,
  \<^verbatim>\<open>AddStatistics\<close>, and the body of the \<^verbatim>\<open>try\<close> block of \<^verbatim>\<open>BuildTileSet\<close>, which
  builds and stores the tile of one entry of the tile index and either throws or updates
  the statistics of its thread.
\<close>

record ('s, 'x) collaborators =
  new_stats :: 's
  add_issue :: "'s \<Rightarrow> u64 \<Rightarrow> 's"
  add_statistics :: "'s \<Rightarrow> 's \<Rightarrow> 's"
  build_tile :: "Node list \<Rightarrow> Edge list \<Rightarrow> GraphId \<times> nat \<Rightarrow> 's \<Rightarrow> 'x + 's"

text \<open>
  \<^verbatim>\<open>BuildTileSet\<close> on the tiles of its range. An exception of a tile is stored in the
  promise (\<open>Inl\<close>) and the thread returns; after the last tile the statistics are stored
  (\<open>Inr\<close>).
\<close>

fun BuildTileSet :: "('t \<Rightarrow> 's \<Rightarrow> 'x + 's) \<Rightarrow> 't list \<Rightarrow> 's \<Rightarrow> 'x + 's" where
  "BuildTileSet build [] stats = Inr stats"
| "BuildTileSet build (tile # rest) stats =
     (case build tile stats of
        Inl e \<Rightarrow> Inl e
      | Inr stats1 \<Rightarrow> BuildTileSet build rest stats1)"

text \<open>
  ``Divvy up the work'': the number of tiles of each thread. \<^verbatim>\<open>tiles.size() /
  threads.size()\<close> has no value when there is no thread.
\<close>

definition divvy :: "nat \<Rightarrow> nat \<Rightarrow> nat list option" where
  "divvy thread_count ntiles =
     (if thread_count = 0 then None
      else
        (let floor = ntiles div thread_count;
             at_ceiling = ntiles - thread_count * floor
         in Some (map (\<lambda>i. if i < at_ceiling then floor + 1 else floor) [0 ..< thread_count])))"

text \<open>The ranges \<^verbatim>\<open>[tile_start, tile_end)\<close> that \<^verbatim>\<open>std::advance\<close> cuts off.\<close>

fun tile_ranges :: "'t list \<Rightarrow> nat list \<Rightarrow> 't list list" where
  "tile_ranges tls [] = []"
| "tile_ranges tls (tile_count # rest) = take tile_count tls # tile_ranges (drop tile_count tls) rest"

text \<open>
  The loop over \<^verbatim>\<open>results\<close> after the threads are joined. \<^verbatim>\<open>get\<close> rethrows the
  exception of a thread; the handler \<^verbatim>\<open>catch(std::exception& e)\<close> is empty, and the loop
  goes on with the next result. The value is what the caller of \<^verbatim>\<open>BuildLocalTiles\<close>
  gets: \<open>Inr\<close> with the statistics on a normal return; \<open>Inl\<close> would be an exception
  that leaves the function.
\<close>

fun check_outcomes :: "('s \<Rightarrow> 's \<Rightarrow> 's) \<Rightarrow> 's \<Rightarrow> ('x + 's) list \<Rightarrow> 'x + 's" where
  "check_outcomes add stats [] = Inr stats"
| "check_outcomes add stats (result # rest) =
     (case result of
        Inr stat \<Rightarrow> check_outcomes add (add stats stat) rest
      | Inl e \<Rightarrow> check_outcomes add stats rest)"

text \<open>
  \<^verbatim>\<open>BuildLocalTiles\<close>: one thread and one promise for each of \<^verbatim>\<open>thread_count\<close>; the
  threads share nothing that they write, so the result of each is the result of
  \<^verbatim>\<open>BuildTileSet\<close> on its range. The first component is the vector \<^verbatim>\<open>results\<close> after
  the threads are joined, one entry for each thread; the second is what the caller gets.
\<close>

definition BuildLocalTiles ::
  "nat \<Rightarrow> ('t \<Rightarrow> 's \<Rightarrow> 'x + 's) \<Rightarrow> 's \<Rightarrow> ('s \<Rightarrow> 's \<Rightarrow> 's) \<Rightarrow> 't list \<Rightarrow> 's
     \<Rightarrow> (('x + 's) list \<times> ('x + 's)) option" where
  "BuildLocalTiles thread_count build fresh add tls stats =
     do {
       tile_counts \<leftarrow> divvy thread_count (length tls);
       let results = map (\<lambda>range. BuildTileSet build range fresh) (tile_ranges tls tile_counts);
       Some (results, check_outcomes add stats results)
     }"

text \<open>
  The configuration tree: the optional \<^verbatim>\<open>concurrency\<close> and the level of the last entry
  of the hierarchy.
\<close>

record config =
  concurrency :: "u32 option"
  hierarchy_level :: "8 word"

text \<open>
  \<^verbatim>\<open>GraphBuilder::Build\<close>. The local \<^verbatim>\<open>threads\<close> is computed from the configuration
  and the hardware concurrency; the first argument of the call of \<^verbatim>\<open>BuildLocalTiles\<close>
  is \<^verbatim>\<open>level\<close>.
\<close>

definition Build ::
  "config \<Rightarrow> u32 \<Rightarrow> OSMWay list \<Rightarrow> OSMWayNode list \<Rightarrow> (OSMNode \<Rightarrow> GraphId)
     \<Rightarrow> ('s, 'x) collaborators \<Rightarrow> (('x + 's) list \<times> ('x + 's)) option" where
  "Build pt hardware_concurrency ways way_nodes graph_id_predicate ext =
     (let threads = max 1 (case concurrency pt of Some c \<Rightarrow> c | None \<Rightarrow> hardware_concurrency);
          lvl = hierarchy_level pt
      in do {
           (nodes, es) \<leftarrow> ConstructEdges ways way_nodes graph_id_predicate;
           (nodes1, es1, tls) \<leftarrow> SortGraph nodes es;
           (es2, cnt, unconnected) \<leftarrow> ReclassifyLinks ways nodes1 es1;
           BuildLocalTiles (unat lvl) (build_tile ext nodes1 es2) (new_stats ext)
             (add_statistics ext) tls (foldl (add_issue ext) (new_stats ext) unconnected)
         })"

section \<open>Merging highway refs\<close>






section \<open>Notions used to state the properties\<close>







fun join_refs :: "string list \<Rightarrow> string" where
  "join_refs [] = []"
| "join_refs [x] = x"
| "join_refs (x # y # ys) = x @ '';'' @ join_refs (y # ys)"


text \<open>The statistics of the workers that stored a value, in the order of the workers.\<close>

fun worker_stats :: "('x + 's) list \<Rightarrow> 's list" where
  "worker_stats [] = []"
| "worker_stats (Inr stat # rest) = stat # worker_stats rest"
| "worker_stats (Inl e # rest) = worker_stats rest"

text \<open>
  Well-formed input of the edge constructor: the way-node sequence is the concatenation
  of one block for each way. The way-nodes of a block name the same way, the way has as
  many way-nodes as the block, at least two and fewer than \<open>2 ^ 16\<close> (the width of the
  shape-point count), and its last way-node is flagged as an intersection.
\<close>

definition wf_block :: "OSMWay list \<Rightarrow> OSMWayNode list \<Rightarrow> bool" where
  "wf_block ways blk =
     (2 \<le> length blk \<and> length blk < 2 ^ 16
      \<and> (\<forall>wn \<in> set blk. way_index wn = way_index (hd blk))
      \<and> way_index (hd blk) < length ways
      \<and> node_count (ways ! way_index (hd blk)) = length blk
      \<and> intersection (wn_node (last blk)))"

text \<open>
  The way-nodes of an edge are those at the \<open>llcount\<close> positions from \<open>llindex\<close> on.
  The edge is within one way and between intersections when these positions exist and
  name the way of the edge, the last of them is flagged, and none strictly between the
  first and the last is.
\<close>

definition edge_span_ok :: "OSMWayNode list \<Rightarrow> Edge \<Rightarrow> bool" where
  "edge_span_ok way_nodes e =
     (let i = unat (llindex e); c = unat (llcount (attributes e))
      in 2 \<le> c \<and> i + c \<le> length way_nodes
         \<and> (\<forall>j \<in> {0 ..< c}. way_index (way_nodes ! (i + j)) = unat (wayindex e))
         \<and> intersection (wn_node (way_nodes ! (i + c - 1)))
         \<and> (\<forall>j \<in> {1 ..< c - 1}. \<not> intersection (wn_node (way_nodes ! (i + j)))))"

text \<open>The flagged way-nodes of a block after its first.\<close>

definition closes :: "OSMWayNode list \<Rightarrow> nat" where
  "closes blk = length (filter (\<lambda>wn. intersection (wn_node wn)) (tl blk))"

section \<open>Example data\<close>

definition mk_osmnode :: "u64 \<Rightarrow> bool \<Rightarrow> bool \<Rightarrow> bool \<Rightarrow> OSMNode" where
  "mk_osmnode i isect le nle =
     \<lparr>osmid = i, intersection = isect, node_traffic_signal = False,
      node_forward_signal = False, node_backward_signal = False,
      link_edge = le, non_link_edge = nle\<rparr>"

definition mk_edge :: "u32 \<Rightarrow> u32 \<Rightarrow> u32 \<Rightarrow> bool \<Rightarrow> 3 word \<Rightarrow> Edge" where
  "mk_edge s t w l imp =
     \<lparr>sourcenode = s, wayindex = w, llindex = 0,
      attributes = \<lparr>llcount = 2, importance = imp, driveableforward = True,
        driveablereverse = True, traffic_signal = False, forward_signal = False,
        backward_signal = False, attr_link = l\<rparr>,
      targetnode = t\<rparr>"

definition tile0 :: GraphId where
  "tile0 = \<lparr>tileid = 5, level = 2, id = 0\<rparr>"



definition way2 :: OSMWay where
  "way2 = \<lparr>way_id = 100, road_class = 3, auto_forward = True, auto_backward = True,
            link = False, node_count = 2\<rparr>"

definition two_node_way :: "OSMWayNode list" where
  "two_node_way =
     [\<lparr>wn_node = mk_osmnode 11 True False False, way_index = 0\<rparr>,
      \<lparr>wn_node = mk_osmnode 12 True False False, way_index = 0\<rparr>]"

definition open_ended_way :: "OSMWayNode list" where
  "open_ended_way =
     [\<lparr>wn_node = mk_osmnode 11 True False False, way_index = 0\<rparr>,
      \<lparr>wn_node = mk_osmnode 12 False False False, way_index = 0\<rparr>]"


text \<open>
  A second way of three way-nodes, the middle one a shape point, and the way-nodes of
  the two ways one after the other.
\<close>

definition way3 :: OSMWay where
  "way3 = \<lparr>way_id = 101, road_class = 4, auto_forward = True, auto_backward = False,
            link = False, node_count = 3\<rparr>"

definition three_node_way :: "OSMWayNode list" where
  "three_node_way =
     [\<lparr>wn_node = mk_osmnode 12 True False False, way_index = 1\<rparr>,
      \<lparr>wn_node = mk_osmnode 13 False False False, way_index = 1\<rparr>,
      \<lparr>wn_node = mk_osmnode 14 True False False, way_index = 1\<rparr>]"

text \<open>
  One edge from node 2 to node 1, as the two records and the edge stand before sorting.
\<close>

definition unsorted_nodes :: "Node list" where
  "unsorted_nodes =
     [\<lparr>node = mk_osmnode 2 True False False, start_of = 0, end_of = - 1, graph_id = tile0\<rparr>,
      \<lparr>node = mk_osmnode 1 True False False, start_of = - 1, end_of = 0, graph_id = tile0\<rparr>]"

definition unsorted_edges :: "Edge list" where
  "unsorted_edges = [mk_edge 0 1 0 False 4]"

text \<open>
  Node 1 starts the non-link edge 0, which ends at node 5; node 5 starts the link edge 1,
  which ends at node 2. The two records of node 5 are the last run.
\<close>

definition last_run_nodes :: "Node list" where
  "last_run_nodes =
     [\<lparr>node = mk_osmnode 1 True False False, start_of = 0, end_of = - 1, graph_id = tile0\<rparr>,
      \<lparr>node = mk_osmnode 2 True True False, start_of = - 1, end_of = 1, graph_id = tile0\<rparr>,
      \<lparr>node = mk_osmnode 5 True False False, start_of = - 1, end_of = 0, graph_id = tile0\<rparr>,
      \<lparr>node = mk_osmnode 5 True True False, start_of = 1, end_of = - 1, graph_id = tile0\<rparr>]"

definition last_run_edges :: "Edge list" where
  "last_run_edges = [mk_edge 0 2 0 False 4, mk_edge 3 1 1 True 4]"

text \<open>
  Two nodes joined by the link edge 0 of importance 5 and the non-link edge 1 of
  importance 2. In each run the first record holds the non-link edge and carries both
  flags; the second record holds the link edge.
\<close>

definition ramp_nodes :: "Node list" where
  "ramp_nodes =
     [\<lparr>node = mk_osmnode 1 True True True, start_of = 1, end_of = - 1, graph_id = tile0\<rparr>,
      \<lparr>node = mk_osmnode 1 True True True, start_of = 0, end_of = - 1, graph_id = tile0\<rparr>,
      \<lparr>node = mk_osmnode 2 True True True, start_of = - 1, end_of = 1,
         graph_id = tile0\<lparr>id := 1\<rparr>\<rparr>,
      \<lparr>node = mk_osmnode 2 True True True, start_of = - 1, end_of = 0,
         graph_id = tile0\<lparr>id := 1\<rparr>\<rparr>]"

definition ramp_edges :: "Edge list" where
  "ramp_edges = [mk_edge 0 2 0 True 5, mk_edge 0 2 1 False 2]"

definition ramp_ways :: "OSMWay list" where
  "ramp_ways =
     [\<lparr>way_id = 100, road_class = 5, auto_forward = True, auto_backward = True,
       link = True, node_count = 2\<rparr>,
      \<lparr>way_id = 101, road_class = 2, auto_forward = True, auto_backward = True,
       link = False, node_count = 2\<rparr>]"

text \<open>
  A configuration that asks for four threads, with a hierarchy whose last level is 2.
\<close>

definition four_threads :: config where
  "four_threads = \<lparr>concurrency = Some 4, hierarchy_level = 2\<rparr>"

text \<open>
  Statistics that count the tiles written, and a tile body that fails with a message on
  tile 7 and counts every other tile.
\<close>

definition failing_build :: "GraphId \<times> nat \<Rightarrow> nat \<Rightarrow> string + nat" where
  "failing_build tile stats =
     (if tileid (fst tile) = 7 then Inl ''write failed'' else Inr (stats + 1))"

definition three_tiles :: "(GraphId \<times> nat) list" where
  "three_tiles =
     [(\<lparr>tileid = 5, level = 2, id = 0\<rparr>, 0),
      (\<lparr>tileid = 7, level = 2, id = 0\<rparr>, 4),
      (\<lparr>tileid = 9, level = 2, id = 0\<rparr>, 6)]"

section \<open>Properties\<close>

lemma foldl_best_step_links:
  "\<forall>e \<in> set el. attr_link (attributes (fst e)) \<Longrightarrow> foldl best_step b el = b"
  by (induction el arbitrary: b) (simp_all add: best_step_def)

lemma unat_ucast_importance: "unat (ucast (i :: 3 word) :: u32) = unat i"
  by (simp add: unsigned_ucast_eq take_bit_nat_eq_self
        less_trans [OF unsigned_less [where 'a = nat, of i]])

lemma unat_importance_less: "unat (i :: 3 word) < 8"
  using unsigned_less [of i, where 'a = nat] by simp

lemma importance_below_absurd: "ucast (i :: 3 word) < kAbsurdRoadClass"
  using unat_importance_less [of i]
  by (simp add: kAbsurdRoadClass_def word_less_nat_alt unat_ucast_importance)

text \<open>
  Claim C10. When every edge of the list is a link edge, \<open>GetBestNonLinkClass\<close> returns
  the sentinel 777777; every value of the 3-bit importance field is below the sentinel,
  and storing the sentinel in such a field does not keep its value.
\<close>

theorem GetBestNonLinkClass_all_links:
  assumes "\<forall>e \<in> set el. attr_link (attributes (fst e))"
  shows "GetBestNonLinkClass el = kAbsurdRoadClass
       \<and> unat kAbsurdRoadClass = 777777
       \<and> (\<forall>i :: 3 word. ucast i < kAbsurdRoadClass)
       \<and> ucast (ucast kAbsurdRoadClass :: 3 word) \<noteq> kAbsurdRoadClass"
proof -
  have "GetBestNonLinkClass el = kAbsurdRoadClass"
    using assms by (simp add: GetBestNonLinkClass_def foldl_best_step_links)
  moreover have "unat kAbsurdRoadClass = 777777"
    by (simp add: kAbsurdRoadClass_def)
  moreover have "ucast (ucast kAbsurdRoadClass :: 3 word) \<noteq> kAbsurdRoadClass"
    by (simp add: kAbsurdRoadClass_def)
  ultimately show ?thesis using importance_below_absurd by blast
qed

theorem GetBestNonLinkClass_all_links_witness:
  "GetBestNonLinkClass
     [(\<lparr>sourcenode = 0, wayindex = 0, llindex = 0,
        attributes = \<lparr>llcount = 2, importance = 3, driveableforward = True,
          driveablereverse = True, traffic_signal = False, forward_signal = False,
          backward_signal = False, attr_link = True\<rparr>,
        targetnode = 1\<rparr>, 0)] = kAbsurdRoadClass"
  using GetBestNonLinkClass_all_links
    [of "[(\<lparr>sourcenode = 0, wayindex = 0, llindex = 0,
        attributes = \<lparr>llcount = 2, importance = 3, driveableforward = True,
          driveablereverse = True, traffic_signal = False, forward_signal = False,
          backward_signal = False, attr_link = True\<rparr>,
        targetnode = 1\<rparr>, 0)]"]
  by simp











subsection \<open>The edge constructor on one way of two way-nodes\<close>

text \<open>
  Claim C2. For one way with two way-nodes, the second flagged as an intersection, the
  constructor emits two node records and the edge at position 0 from record 0 to record
  1. The first record has \<open>start_of = 1\<close> and the second \<open>end_of = 1\<close>, the number of
  ways; the edge sequence has no position 1. The claim asks for position 0 in both.
\<close>

theorem ConstructEdges_start_of_is_way_count:
  "map_option (\<lambda>(ns, es). (map start_of ns, map end_of ns, map sourcenode es, map targetnode es))
     (ConstructEdges [way2] two_node_way pred)
   = Some ([1, - 1], [- 1, 1], [0], [1])"
  by (simp add: ConstructEdges_def ConstructEdges_loop.simps way_loop.simps seq_at_def
      two_node_way_def way2_def start_node_def end_node_def mk_osmnode_def make_edge_def
      count_shape_point_def Let_def)

subsection \<open>The sorter on a sequence that the sort permutes\<close>

lemmas sort_defs = SortGraph_def sequence_sort_def node_less_def sort_step_def classify_def
  run_back_def relink_start_def relink_end_def carry_flags_def set_id_def seq_at_def
  is_start_def is_end_def mk_osmnode_def mk_edge_def tile0_def zero_node_def graphid_less_def

text \<open>
  Claim C1. Before the sort, record 0 (node 2) starts edge 0 and record 1 (node 1) ends
  it, and the edge goes from 0 to 1. The sort exchanges the two records. Each is the
  first record of its run, and the pass relinks edges for the later records of a run
  only: edge 0 still goes from 0 to 1, while the record that starts it is now at position
  1 and the record that ends it at position 0.
\<close>

theorem SortGraph_keeps_stale_endpoints:
  "map_option (\<lambda>(ns, es, t). (map (osmid \<circ> node) ns, map start_of ns, map end_of ns,
       map sourcenode es, map targetnode es))
     (SortGraph unsorted_nodes unsorted_edges)
   = Some ([1, 2], [- 1, 0], [0, - 1], [0], [1])"
  by (simp add: sort_defs unsorted_nodes_def unsorted_edges_def upt_rec)

text \<open>
  Claim C5. In \<open>last_run_nodes\<close> the last run is the two records of node 5, at positions
  2 and 3. The second of them starts the link edge 1 and has \<open>link_edge\<close> set after the
  pass; the first, which is the canonical record, still has it clear: no run is written
  back after the last record.
\<close>

theorem SortGraph_last_run_not_written_back:
  "map_option (\<lambda>(ns, es, t). (map (osmid \<circ> node) ns, map (link_edge \<circ> node) ns))
     (SortGraph last_run_nodes last_run_edges)
   = Some ([1, 2, 5, 5], [False, True, False, True])"
  by (simp add: sort_defs last_run_nodes_def last_run_edges_def upt_rec)

subsection \<open>The reclassifier when no non-link edge is collected\<close>

lemma expand_loop_empty:
  assumes "expandset st = []"
  shows "expand_loop 512 ways nodes se st = frontier_empty ways (fst se) st"
proof -
  have s: "(512::nat) = Suc 511" by simp
  show ?thesis unfolding s expand_loop.simps using assms by simp
qed

lemmas reclass_defs = ReclassifyLinks_def reclassify_loop.simps collect_node_edges_def
  collect_loop.simps emplace_edge_def seq_at_def is_start_def is_end_def expand_def
  frontier_empty_def set_importance_def GetBestNonLinkClass_def best_step_def
  kAbsurdRoadClass_def set_insert_def Node.extend_def node_bundle.fields_def
  mk_osmnode_def mk_edge_def tile0_def expand_loop_empty

text \<open>
  Claim C6. In \<open>ramp_nodes\<close> both nodes carry both flags, and the edges collected at each
  of them are the link edge 0 alone, so that \<open>endrc\<close> is twice the sentinel 777777. The
  sentinel is greater than the importance 5 of edge 0 and is stored in the 3-bit field,
  which keeps 1: the importance of the link edge goes down from 5 to 1.
\<close>

theorem ReclassifyLinks_lowers_importance:
  "map (importance \<circ> attributes) ramp_edges = [5, 2]
   \<and> map_option (\<lambda>(es, cnt, unconnected). (map (importance \<circ> attributes) es, cnt, unconnected))
       (ReclassifyLinks ramp_ways ramp_nodes ramp_edges) = Some ([1, 2], 2, [])"
  by (simp add: reclass_defs ramp_nodes_def ramp_edges_def ramp_ways_def)

subsection \<open>The number of worker threads\<close>

lemma length_tile_ranges: "length (tile_ranges tls tile_counts) = length tile_counts"
  by (induction tile_counts arbitrary: tls) simp_all

lemma BuildLocalTiles_workers:
  "BuildLocalTiles thread_count build fresh add tls stats = Some (results, outcome)
     \<Longrightarrow> length results = thread_count"
  by (auto simp: BuildLocalTiles_def divvy_def Let_def length_tile_ranges split: if_splits)

text \<open>
  Claim C7. With \<open>concurrency = 4\<close> in the configuration and a hierarchy whose last level
  is 2, \<open>Build\<close> starts two worker threads, whatever the hardware concurrency: the count
  passed to \<open>BuildLocalTiles\<close> is the level.
\<close>

theorem Build_worker_count_is_level:
  "map_option (length \<circ> fst) (Build four_threads hw [] [] pred ext) = Some 2"
  by (simp add: Build_def four_threads_def ConstructEdges_def ConstructEdges_loop.simps
      SortGraph_def sequence_sort_def ReclassifyLinks_def reclassify_loop.simps
      BuildLocalTiles_def divvy_def upt_rec)

subsection \<open>The edge constructor on well-formed input\<close>

lemma unat_of_nat_32: "n < 2 ^ 32 \<Longrightarrow> unat (of_nat n :: u32) = n"
  by (simp add: unat_of_nat)

lemma unat_llcount_Suc: "unat (c :: 16 word) + 1 < 2 ^ 16 \<Longrightarrow> unat (c + 1) = unat c + 1"
  by (simp add: unat_word_ariths)

lemma count_shape_point_simps [simp]:
  "llindex (count_shape_point e) = llindex e"
  "wayindex (count_shape_point e) = wayindex e"
  "llcount (attributes (count_shape_point e)) = llcount (attributes e) + 1"
  by (simp_all add: count_shape_point_def)

lemma set_signal_simps [simp]:
  "llindex (set_signal n e) = llindex e"
  "wayindex (set_signal n e) = wayindex e"
  "llcount (attributes (set_signal n e)) = llcount (attributes e)"
  by (simp_all add: set_signal_def)

lemma make_edge_simps [simp]:
  "llindex (make_edge s w l way) = of_nat l"
  "wayindex (make_edge s w l way) = of_nat w"
  "llcount (attributes (make_edge s w l way)) = 1"
  by (simp_all add: make_edge_def)

lemma length_patch_last_start [simp]: "length (patch_last_start n ns) = length ns"
  by (simp add: patch_last_start_def)


lemma closed_edge_span_ok:
  assumes "cur + 1 < length way_nodes" "a \<le> cur"
    and "unat (llindex edge) = a"
    and "unat (llcount (attributes edge)) = cur - a + 1"
    and "cur - a + 2 < 2 ^ 16"
    and "unat (wayindex edge) = wi"
    and "\<forall>j. a \<le> j \<and> j \<le> cur + 1 \<longrightarrow> way_index (way_nodes ! j) = wi"
    and "intersection (wn_node (way_nodes ! (cur + 1)))"
    and "\<forall>j. a < j \<and> j \<le> cur \<longrightarrow> \<not> intersection (wn_node (way_nodes ! j))"
  shows "edge_span_ok way_nodes ((count_shape_point edge)\<lparr>targetnode := t\<rparr>)"
proof -
  let ?e = "(count_shape_point edge)\<lparr>targetnode := t\<rparr>"
  have c: "unat (llcount (attributes ?e)) = cur - a + 2"
    using assms(4,5) by (simp add: unat_llcount_Suc)
  have i: "unat (llindex ?e) = a" using assms(3) by simp
  have w: "unat (wayindex ?e) = wi" using assms(6) by simp
  have "2 \<le> cur - a + 2" by simp
  moreover have "a + (cur - a + 2) \<le> length way_nodes" using assms(1,2) by simp
  moreover have "\<forall>j \<in> {0 ..< cur - a + 2}. way_index (way_nodes ! (a + j)) = wi"
    using assms(2,7) by auto
  moreover have "intersection (wn_node (way_nodes ! (a + (cur - a + 2) - 1)))"
    using assms(2,8) by simp
  moreover have "\<forall>j \<in> {1 ..< cur - a + 2 - 1}. \<not> intersection (wn_node (way_nodes ! (a + j)))"
    using assms(2,9) by auto
  ultimately show ?thesis
    unfolding edge_span_ok_def Let_def c i w by blast
qed

lemma way_loop_block:
  assumes "l < length way_nodes" "intersection (wn_node (way_nodes ! l))"
    and "l < 2 ^ 32" "wi < 2 ^ 32"
    and "cur < l" "a \<le> cur"
    and "\<forall>j. a \<le> j \<and> j \<le> l \<longrightarrow> way_index (way_nodes ! j) = wi"
    and "l - a + 1 < 2 ^ 16"
    and "unat (llindex edge) = a"
    and "unat (llcount (attributes edge)) = cur - a + 1"
    and "unat (wayindex edge) = wi"
    and "\<forall>j. a < j \<and> j \<le> cur \<longrightarrow> \<not> intersection (wn_node (way_nodes ! j))"
  shows "\<exists>ns' es'. way_loop nways way_nodes way l pred ns es edge cur = Some (ns', es @ es', l + 1)
           \<and> length es' = length (filter (\<lambda>k. intersection (wn_node (way_nodes ! k))) [cur + 1 ..< l + 1])
           \<and> length ns' = length ns + length es'
           \<and> (\<forall>e \<in> set es'. edge_span_ok way_nodes e)"
  using assms
proof (induction "l - cur" arbitrary: cur a edge ns es rule: less_induct)
  case less
  let ?wn = "way_nodes ! (cur + 1)"
  let ?e1 = "count_shape_point edge"
  let ?e2 = "?e1\<lparr>targetnode := of_nat (length ns)\<rparr>"
  let ?P = "\<lambda>k. intersection (wn_node (way_nodes ! k))"
  have lt: "cur + 1 < length way_nodes" using less.prems(1,5) by simp
  have upt: "[cur + 1 ..< l + 1] = (cur + 1) # [cur + 1 + 1 ..< l + 1]"
    using less.prems(5) by (simp add: upt_conv_Cons)
  have bound: "cur - a + 2 < 2 ^ 16" using less.prems(5,6,8) by simp
  have cnt: "length (filter ?P [cur + 1 ..< l + 1]) =
      (if ?P (cur + 1) then 1 else 0) + length (filter ?P [cur + 1 + 1 ..< l + 1])"
    by (subst upt) simp
  show ?case
  proof (cases "intersection (wn_node ?wn)")
    case True
    have ok: "edge_span_ok way_nodes ?e2"
      using lt less.prems(6) less.prems(9) less.prems(10) bound less.prems(11) _ True less.prems(12)
    proof (rule closed_edge_span_ok)
      show "\<forall>j. a \<le> j \<and> j \<le> cur + 1 \<longrightarrow> way_index (way_nodes ! j) = wi"
        using less.prems(5,7) by auto
    qed
    show ?thesis
    proof (cases "cur + 1 = l")
      case last: True
      have "way_loop nways way_nodes way l pred ns es edge cur =
          Some (ns @ [end_node nways way pred (wn_node ?wn)], es @ [?e2], l + 1)"
        using lt True last less.prems(5)
        by (subst way_loop.simps) (simp add: seq_at_def)
      moreover have "length (filter ?P [cur + 1 ..< l + 1]) = 1"
        using True last cnt by simp
      ultimately show ?thesis using ok by simp
    next
      case inner: False
      let ?e3 = "make_edge (length ns + 1) (way_index ?wn) (cur + 1) way"
      let ?ns1 = "patch_last_start nways (ns @ [end_node nways way pred (wn_node ?wn)])"
      have step: "way_loop nways way_nodes way l pred ns es edge cur =
          way_loop nways way_nodes way l pred ?ns1 (es @ [?e2]) ?e3 (cur + 1)"
        using lt True inner less.prems(5)
        by (subst way_loop.simps) (simp add: seq_at_def)
      have wi: "way_index ?wn = wi" using less.prems(5,6,7) by simp
      have "\<exists>ns' es'. way_loop nways way_nodes way l pred ?ns1 (es @ [?e2]) ?e3 (cur + 1)
              = Some (ns', (es @ [?e2]) @ es', l + 1)
           \<and> length es' = length (filter ?P [cur + 1 + 1 ..< l + 1])
           \<and> length ns' = length ?ns1 + length es'
           \<and> (\<forall>e \<in> set es'. edge_span_ok way_nodes e)"
      proof (rule less.hyps [where a = "cur + 1"])
        show "l - (cur + 1) < l - cur" using less.prems(5) by simp
        show "cur + 1 < l" using inner less.prems(5) by simp
        show "cur + 1 \<le> cur + 1" by simp
        show "\<forall>j. cur + 1 \<le> j \<and> j \<le> l \<longrightarrow> way_index (way_nodes ! j) = wi"
          using less.prems(6,7) by simp
        show "l - (cur + 1) + 1 < 2 ^ 16" using less.prems(6,8) by simp
        have "cur + 1 < 2 ^ 32" using less.prems(3,5) by simp
        then show "unat (llindex ?e3) = cur + 1"
          unfolding make_edge_simps by (rule unat_of_nat_32)
        show "unat (llcount (attributes ?e3)) = cur + 1 - (cur + 1) + 1" by simp
        show "unat (wayindex ?e3) = wi"
          unfolding make_edge_simps wi using less.prems(4) by (rule unat_of_nat_32)
        show "\<forall>j. cur + 1 < j \<and> j \<le> cur + 1 \<longrightarrow> \<not> intersection (wn_node (way_nodes ! j))"
          by auto
      qed (use less.prems in simp_all)
      then obtain ns' es' where r:
        "way_loop nways way_nodes way l pred ?ns1 (es @ [?e2]) ?e3 (cur + 1)
              = Some (ns', es @ (?e2 # es'), l + 1)"
        "length es' = length (filter ?P [cur + 1 + 1 ..< l + 1])"
        "length ns' = length ns + 1 + length es'"
        "\<forall>e \<in> set es'. edge_span_ok way_nodes e"
        by auto
      show ?thesis
      proof (intro exI conjI)
        show "way_loop nways way_nodes way l pred ns es edge cur = Some (ns', es @ (?e2 # es'), l + 1)"
          using step r(1) by simp
        show "length (?e2 # es') = length (filter ?P [cur + 1 ..< l + 1])"
          using True r(2) cnt by (simp only: if_True list.size)
        show "length ns' = length ns + length (?e2 # es')" using r(3) by simp
        show "\<forall>e \<in> set (?e2 # es'). edge_span_ok way_nodes e" using ok r(4) by simp
      qed
    qed
  next
    case False
    let ?e3 = "if node_traffic_signal (wn_node ?wn) then set_signal (wn_node ?wn) ?e1 else ?e1"
    have inner: "cur + 1 \<noteq> l" using False less.prems(2) by auto
    have step: "way_loop nways way_nodes way l pred ns es edge cur =
        way_loop nways way_nodes way l pred ns es ?e3 (cur + 1)"
      using lt False by (subst way_loop.simps) (simp add: seq_at_def)
    have "\<exists>ns' es'. way_loop nways way_nodes way l pred ns es ?e3 (cur + 1)
              = Some (ns', es @ es', l + 1)
           \<and> length es' = length (filter ?P [cur + 1 + 1 ..< l + 1])
           \<and> length ns' = length ns + length es'
           \<and> (\<forall>e \<in> set es'. edge_span_ok way_nodes e)"
    proof (rule less.hyps [where a = a])
      show "l - (cur + 1) < l - cur" using less.prems(5) by simp
      show "cur + 1 < l" using inner less.prems(5) by simp
      show "a \<le> cur + 1" using less.prems(6) by simp
      show "unat (llindex ?e3) = a" using less.prems(9) by simp
      show "unat (llcount (attributes ?e3)) = cur + 1 - a + 1"
        using less.prems(6,10) bound by (simp add: unat_llcount_Suc)
      show "unat (wayindex ?e3) = wi" using less.prems(11) by simp
      show "\<forall>j. a < j \<and> j \<le> cur + 1 \<longrightarrow> \<not> intersection (wn_node (way_nodes ! j))"
        using False less.prems(12) by (auto simp: le_Suc_eq)
    qed (use less.prems in simp_all)
    moreover have "length (filter ?P [cur + 1 ..< l + 1]) = length (filter ?P [cur + 1 + 1 ..< l + 1])"
      using False cnt by (simp only: if_False add_0)
    ultimately show ?thesis using step by simp
  qed
qed


lemma block_nth:
  "j < length blk \<Longrightarrow> (pre @ blk @ post) ! (length pre + j) = blk ! j"
  by (simp add: nth_append)

lemma block_tl:
  "map ((!) (pre @ blk @ post)) [length pre + 1 ..< length pre + length blk] = tl blk"
proof (rule nth_equalityI)
  show "length (map ((!) (pre @ blk @ post)) [length pre + 1 ..< length pre + length blk]) = length (tl blk)"
    by simp
next
  fix i
  assume "i < length (map ((!) (pre @ blk @ post)) [length pre + 1 ..< length pre + length blk])"
  then have i: "i + 1 < length blk" by simp
  then have "(pre @ blk @ post) ! (length pre + (i + 1)) = blk ! (i + 1)" by (rule block_nth)
  moreover have "tl blk ! i = blk ! (i + 1)" using i by (simp add: nth_tl)
  ultimately show "map ((!) (pre @ blk @ post)) [length pre + 1 ..< length pre + length blk] ! i = tl blk ! i"
    using i by (simp add: add.assoc)
qed

lemma block_closes:
  "length (filter (\<lambda>k. intersection (wn_node ((pre @ blk @ post) ! k)))
      [length pre + 1 ..< length pre + length blk]) = closes blk"
proof -
  have "filter (\<lambda>wn. intersection (wn_node wn)) (map ((!) (pre @ blk @ post)) [length pre + 1 ..< length pre + length blk])
      = map ((!) (pre @ blk @ post)) (filter (\<lambda>k. intersection (wn_node ((pre @ blk @ post) ! k))) [length pre + 1 ..< length pre + length blk])"
    by (simp add: filter_map comp_def)
  then have "length (filter (\<lambda>wn. intersection (wn_node wn)) (tl blk))
      = length (filter (\<lambda>k. intersection (wn_node ((pre @ blk @ post) ! k))) [length pre + 1 ..< length pre + length blk])"
    unfolding block_tl by simp
  then show ?thesis by (simp add: closes_def)
qed

lemma mod_pred_wrap:
  fixes k m :: nat
  assumes "0 < k" "k - 1 < m"
  shows "(k + (m - 1)) mod m = k - 1"
proof -
  have "k + (m - 1) = (k - 1) + m" using assms by simp
  then have "(k + (m - 1)) mod m = ((k - 1) + m) mod m" by (simp only:)
  also have "\<dots> = (k - 1) mod m" by (rule mod_add_self2)
  also have "\<dots> = k - 1" using assms(2) by (rule mod_less)
  finally show ?thesis .
qed

lemma last_index_no_wrap:
  assumes "0 < n" "s + n < 2 ^ 32"
  shows "(s + n + (2 ^ 64 - 1)) mod 2 ^ 64 = s + n - (1::nat)"
proof (rule mod_pred_wrap)
  show "0 < s + n" using assms(1) by simp
  have "(2::nat) ^ 32 < 2 ^ 64" by simp
  then show "s + n - 1 < 2 ^ 64" using assms(2) by linarith
qed

lemma ConstructEdges_loop_blocks:
  assumes "\<forall>blk \<in> set blks. wf_block ways blk"
    and "way_nodes = pre @ concat blks"
    and "length way_nodes < 2 ^ 32" "length ways \<le> 2 ^ 32"
  shows "\<exists>ns' es'. ConstructEdges_loop ways way_nodes pred ns es (length pre) = Some (ns', es @ es')
     \<and> length es' = sum_list (map closes blks)
     \<and> length ns' = length ns + length blks + length es'
     \<and> (\<forall>e \<in> set es'. edge_span_ok way_nodes e)"
  using assms
proof (induction blks arbitrary: pre ns es)
  case Nil
  then have "ConstructEdges_loop ways way_nodes pred ns es (length pre) = Some (ns, es)"
    by (subst ConstructEdges_loop.simps) simp
  then show ?case by simp
next
  case (Cons blk rest)
  let ?s = "length pre" and ?n = "length blk"
  let ?l = "?s + ?n - 1"
  let ?wi = "way_index (hd blk)"
  let ?way = "ways ! ?wi"
  let ?post = "concat rest"
  let ?P = "\<lambda>k. intersection (wn_node (way_nodes ! k))"
  have wn: "way_nodes = pre @ blk @ ?post" using Cons.prems(2) by simp
  have wf: "wf_block ways blk" using Cons.prems(1) by simp
  then have n2: "2 \<le> ?n" and n16: "?n < 2 ^ 16"
    and same: "\<forall>x \<in> set blk. way_index x = ?wi"
    and wil: "?wi < length ways" and nc: "node_count ?way = ?n"
    and fl: "intersection (wn_node (last blk))"
    by (simp_all add: wf_block_def)
  have ne: "blk \<noteq> []" using n2 by auto
  have at: "\<And>j. j < ?n \<Longrightarrow> way_nodes ! (?s + j) = blk ! j"
    unfolding wn by (rule block_nth)
  have s_lt: "?s < length way_nodes" using ne by (simp add: wn)
  have l_lt: "?l < length way_nodes" using n2 by (simp add: wn)
  have first: "way_nodes ! ?s = hd blk" using at [of 0] ne n2 by (simp add: hd_conv_nth)
  have lastn: "way_nodes ! ?l = last blk"
    using at [of "?n - 1"] ne n2 by (simp add: last_conv_nth)
  have sn: "?s + ?n < 2 ^ 32" using Cons.prems(3) by (simp add: wn)
  have lidx: "(?s + node_count ?way + (2 ^ 64 - 1)) mod 2 ^ 64 = ?l"
    unfolding nc using ne sn by (intro last_index_no_wrap) simp_all
  have wi32: "?wi < 2 ^ 32" using wil Cons.prems(4) by simp
  let ?ns0 = "ns @ [start_node (length ways) ?way pred (wn_node (hd blk))]"
  let ?e0 = "make_edge (length ns) ?wi ?s ?way"
  have "\<exists>ns1 es1. way_loop (length ways) way_nodes ?way ?l pred ?ns0 es ?e0 ?s = Some (ns1, es @ es1, ?l + 1)
           \<and> length es1 = length (filter ?P [?s + 1 ..< ?l + 1])
           \<and> length ns1 = length ?ns0 + length es1
           \<and> (\<forall>e \<in> set es1. edge_span_ok way_nodes e)"
  proof (rule way_loop_block [where a = ?s and wi = ?wi])
    show "?l < length way_nodes" by (rule l_lt)
    show "intersection (wn_node (way_nodes ! ?l))" using fl by (simp only: lastn)
    show "?l < 2 ^ 32" using sn by simp
    show "?wi < 2 ^ 32" by (rule wi32)
    show "?s < ?l" using n2 by simp
    show "?s \<le> ?s" by simp
    show "\<forall>j. ?s \<le> j \<and> j \<le> ?l \<longrightarrow> way_index (way_nodes ! j) = ?wi"
    proof (intro allI impI)
      fix j assume j: "?s \<le> j \<and> j \<le> ?l"
      then have "j - ?s < ?n" using n2 by auto
      then have "way_nodes ! (?s + (j - ?s)) = blk ! (j - ?s)" "blk ! (j - ?s) \<in> set blk"
        by (simp_all add: at)
      then show "way_index (way_nodes ! j) = ?wi" using same j by simp
    qed
    show "?l - ?s + 1 < 2 ^ 16" using n2 n16 by simp
    have "?s < 2 ^ 32" using sn by simp
    then show "unat (llindex ?e0) = ?s" unfolding make_edge_simps by (rule unat_of_nat_32)
    show "unat (llcount (attributes ?e0)) = ?s - ?s + 1" by simp
    show "unat (wayindex ?e0) = ?wi" unfolding make_edge_simps using wi32 by (rule unat_of_nat_32)
    show "\<forall>j. ?s < j \<and> j \<le> ?s \<longrightarrow> \<not> intersection (wn_node (way_nodes ! j))" by auto
  qed
  then obtain ns1 es1 where inner:
    "way_loop (length ways) way_nodes ?way ?l pred ?ns0 es ?e0 ?s = Some (ns1, es @ es1, ?l + 1)"
    "length es1 = length (filter ?P [?s + 1 ..< ?l + 1])"
    "length ns1 = length ns + 1 + length es1"
    "\<forall>e \<in> set es1. edge_span_ok way_nodes e"
    by auto
  have l1: "?l + 1 = length (pre @ blk)" using n2 by simp
  have e: "?l + 1 = ?s + ?n" using n2 by simp
  have "length es1 = length (filter ?P [?s + 1 ..< ?s + ?n])"
    using inner(2) by (simp only: e)
  then have c1: "length es1 = closes blk"
    unfolding wn by (simp only: block_closes)
  have "\<exists>ns' es2. ConstructEdges_loop ways way_nodes pred ns1 (es @ es1) (length (pre @ blk))
        = Some (ns', (es @ es1) @ es2)
     \<and> length es2 = sum_list (map closes rest)
     \<and> length ns' = length ns1 + length rest + length es2
     \<and> (\<forall>e \<in> set es2. edge_span_ok way_nodes e)"
    using Cons.prems by (intro Cons.IH) simp_all
  then obtain ns' es2 where outer:
    "ConstructEdges_loop ways way_nodes pred ns1 (es @ es1) (?l + 1) = Some (ns', es @ (es1 @ es2))"
    "length es2 = sum_list (map closes rest)"
    "length ns' = length ns1 + length rest + length es2"
    "\<forall>e \<in> set es2. edge_span_ok way_nodes e"
    unfolding l1 by auto
  have step: "ConstructEdges_loop ways way_nodes pred ns es ?s =
      ConstructEdges_loop ways way_nodes pred ns1 (es @ es1) (?l + 1)"
  proof -
    have "ConstructEdges_loop ways way_nodes pred ns es ?s =
        way_loop (length ways) way_nodes ?way
          ((?s + node_count ?way + (2 ^ 64 - 1)) mod 2 ^ 64) pred ?ns0 es ?e0 ?s
        \<bind> (\<lambda>(nodes', es', cur'). ConstructEdges_loop ways way_nodes pred nodes' es' cur')"
      using s_lt wil by (subst ConstructEdges_loop.simps) (simp add: seq_at_def first)
    then show ?thesis unfolding lidx inner(1) by simp
  qed
  show ?case
  proof (intro exI conjI)
    show "ConstructEdges_loop ways way_nodes pred ns es ?s = Some (ns', es @ (es1 @ es2))"
      using step outer(1) by simp
    show "length (es1 @ es2) = sum_list (map closes (blk # rest))" using c1 outer(2) by simp
    show "length ns' = length ns + length (blk # rest) + length (es1 @ es2)"
      using inner(3) outer(3) by simp
    show "\<forall>e \<in> set (es1 @ es2). edge_span_ok way_nodes e" using inner(4) outer(4) by auto
  qed
qed

text \<open>
  Claim C3, as amended. On well-formed input (one block of way-nodes for each way, at
  least two way-nodes in a way, the last of them flagged as an intersection) the
  constructor returns, and it closes an edge exactly at the flagged way-nodes after the
  first of each way: the number of edges is the number of these way-nodes, there is one
  node record for each way and one for each edge (so that a way of two way-nodes gives one
  edge and two node records), and the way-nodes of every edge belong to the way of the
  edge, the last of them flagged and none between the first and the last flagged.
\<close>

theorem ConstructEdges_closes_at_intersections:
  assumes "\<forall>blk \<in> set blks. wf_block ways blk"
    and "length (concat blks) < 2 ^ 32" "length ways \<le> 2 ^ 32"
  shows "\<exists>ns es. ConstructEdges ways (concat blks) pred = Some (ns, es)
     \<and> length es = sum_list (map closes blks)
     \<and> length ns = length blks + length es
     \<and> (\<forall>e \<in> set es. edge_span_ok (concat blks) e)"
  using ConstructEdges_loop_blocks [of blks ways "concat blks" "[]" pred "[]" "[]"] assms
  by (simp add: ConstructEdges_def)


theorem ConstructEdges_closes_at_intersections_witness:
  "\<exists>ns es. ConstructEdges [way2, way3] (two_node_way @ three_node_way) (\<lambda>n. tile0) = Some (ns, es)
     \<and> length es = 2 \<and> length ns = 4
     \<and> (\<forall>e \<in> set es. edge_span_ok (two_node_way @ three_node_way) e)"
proof -
  have wf: "\<forall>blk \<in> set [two_node_way, three_node_way]. wf_block [way2, way3] blk"
    by (simp add: wf_block_def two_node_way_def three_node_way_def way2_def way3_def
        mk_osmnode_def)
  have len: "length (concat [two_node_way, three_node_way]) < 2 ^ 32"
    by (simp add: two_node_way_def three_node_way_def)
  have ways: "length [way2, way3] \<le> 2 ^ 32" by simp
  have cl: "sum_list (map closes [two_node_way, three_node_way]) = 2"
    by (simp add: closes_def two_node_way_def three_node_way_def mk_osmnode_def)
  show ?thesis
    using ConstructEdges_closes_at_intersections [OF wf len ways, of "\<lambda>n. tile0"]
    unfolding cl by auto
qed

text \<open>
  Claim C3 as stated fails on a way whose second and last way-node is not flagged: the
  edge is not closed there, the loop reads the way-node after the last one, and the run
  ends without any edge.
\<close>

theorem ConstructEdges_counterexample:
  "ConstructEdges [way2] open_ended_way (\<lambda>n. tile0) = None"
  by (simp add: ConstructEdges_def ConstructEdges_loop.simps way_loop.simps seq_at_def
      open_ended_way_def way2_def mk_osmnode_def)

subsection \<open>The driver and the exceptions of its workers\<close>

lemma concat_tile_ranges:
  "sum_list tile_counts = length tls \<Longrightarrow> concat (tile_ranges tls tile_counts) = tls"
proof (induction tile_counts arbitrary: tls)
  case Nil
  then show ?case by simp
next
  case (Cons c cs)
  then have "sum_list cs = length (drop c tls)" by simp
  then have "concat (tile_ranges (drop c tls) cs) = drop c tls" by (rule Cons.IH)
  then show ?case by simp
qed

lemma sum_list_divvy:
  "sum_list (map (\<lambda>i. if i < r then q + 1 else q) [0 ..< n]) = n * q + min r n"
  by (induction n) (auto simp: min_def)

lemma divvy_Some:
  assumes "0 < thread_count"
  shows "\<exists>tile_counts. divvy thread_count ntiles = Some tile_counts
           \<and> length tile_counts = thread_count \<and> sum_list tile_counts = ntiles"
proof -
  let ?q = "ntiles div thread_count"
  let ?r = "ntiles - thread_count * ?q"
  have r: "?r = ntiles mod thread_count" by (simp add: minus_mult_div_eq_mod)
  then have "?r < thread_count" using assms by simp
  then have "thread_count * ?q + min ?r thread_count = ntiles" by (simp add: r)
  then show ?thesis using assms by (simp add: divvy_def Let_def sum_list_divvy)
qed

lemma check_outcomes_discards:
  "check_outcomes add stats results = Inr (foldl add stats (worker_stats results))"
  by (induction results arbitrary: stats rule: worker_stats.induct) simp_all

text \<open>
  Claim C8, as amended. When there is at least one thread, the tiles are cut into one
  range for each thread, the result of each worker is the result of \<open>BuildTileSet\<close> on
  its own range, whatever the other workers do, and the driver returns normally: the
  statistics of the caller are merged with those of the workers that stored a value,
  and the exceptions of the others are dropped.
\<close>

theorem BuildLocalTiles_discards_exceptions:
  assumes "0 < thread_count"
  shows "\<exists>ranges. concat ranges = tls \<and> length ranges = thread_count
           \<and> BuildLocalTiles thread_count build fresh add tls stats =
               Some (map (\<lambda>range. BuildTileSet build range fresh) ranges,
                     Inr (foldl add stats
                            (worker_stats (map (\<lambda>range. BuildTileSet build range fresh) ranges))))"
proof -
  from divvy_Some [OF assms] obtain tile_counts where
    d: "divvy thread_count (length tls) = Some tile_counts"
    and l: "length tile_counts = thread_count"
    and s: "sum_list tile_counts = length tls"
    by blast
  let ?ranges = "tile_ranges tls tile_counts"
  have "concat ?ranges = tls" using s by (rule concat_tile_ranges)
  moreover have "length ?ranges = thread_count" by (simp add: length_tile_ranges l)
  moreover have "BuildLocalTiles thread_count build fresh add tls stats =
      Some (map (\<lambda>range. BuildTileSet build range fresh) ?ranges,
            Inr (foldl add stats
                   (worker_stats (map (\<lambda>range. BuildTileSet build range fresh) ?ranges))))"
    by (simp add: BuildLocalTiles_def d check_outcomes_discards Let_def)
  ultimately show ?thesis by blast
qed

theorem BuildLocalTiles_discards_exceptions_witness:
  "\<exists>ranges. concat ranges = three_tiles \<and> length ranges = 2
      \<and> BuildLocalTiles 2 failing_build 0 (+) three_tiles 10 =
          Some (map (\<lambda>range. BuildTileSet failing_build range 0) ranges,
                Inr (foldl (+) 10
                       (worker_stats (map (\<lambda>range. BuildTileSet failing_build range 0) ranges))))"
  using BuildLocalTiles_discards_exceptions [of 2 three_tiles failing_build 0 "(+)" 10]
  by simp

text \<open>
  Claim C8 as stated fails: of two workers on three tiles, the first stops with the
  exception of tile 7 and the second stores its statistics; the driver returns normally
  with the statistics of the second worker merged, and nothing is thrown to its caller.
\<close>

theorem BuildLocalTiles_counterexample:
  "BuildLocalTiles 2 failing_build 0 (+) three_tiles 10
     = Some ([Inl ''write failed'', Inr 1], Inr 11)"
  by (simp add: BuildLocalTiles_def divvy_def three_tiles_def failing_build_def upt_rec)

subsection \<open>Ref merging\<close>






lemma join_refs_Cons: "xs \<noteq> [] \<Longrightarrow> join_refs (x # xs) = x @ '';'' @ join_refs xs"
  by (cases xs) simp_all













end
